theory Spec2Isabelle
  imports Complex_Main "HOL-Library.AList" "HOL-Library.Signed_Division"
begin

section \<open>Go values\<close>

text \<open>
  Go's \<open>int\<close> is a 64-bit two's complement integer on the platforms the orchestrator
  targets. It is modelled as an \<open>int\<close> with the wrap-around written out: every
  \<open>+\<close>, \<open>-\<close>, \<open>++\<close> and \<open>--\<close> of the source goes through \<open>wrap64\<close>. Integer
  division truncates towards zero (\<open>sdiv\<close>).

  A \<open>float64\<close> is modelled by the real number it denotes: the rounding of \<open>*\<close> and \<open>/\<close>,
  NaN and the infinities are outside the model. The conversion \<open>int(x)\<close> of a float
  truncates towards zero; for a value outside the range of \<open>int\<close> Go leaves the result
  to the implementation, and the model truncates there too.
\<close>

definition wrap64 :: "int \<Rightarrow> int" where
  "wrap64 x = (x + 2 ^ 63) mod 2 ^ 64 - 2 ^ 63"

definition is_int64 :: "int \<Rightarrow> bool" where
  "is_int64 x \<longleftrightarrow> - (2 ^ 63) \<le> x \<and> x < 2 ^ 63"

definition int_of_float :: "real \<Rightarrow> int" where
  "int_of_float x = (if x < 0 then \<lceil>x\<rceil> else \<lfloor>x\<rfloor>)"

section \<open>The scaling decision (scaling.go)\<close>

record ScalingMetrics =
  GPUUtilization :: real
  VRAMUsed :: real
  Requests :: int

text \<open>The local \<open>maxByVRAM\<close> of \<open>calculateDesiredWorkers\<close>: 4000 MB per model.\<close>

definition maxByVRAM :: "ScalingMetrics \<Rightarrow> int" where
  "maxByVRAM metrics = int_of_float ((VRAMUsed metrics * 0.9) / 4000)"

definition calculateDesiredWorkers :: "string \<Rightarrow> int \<Rightarrow> ScalingMetrics \<Rightarrow> int" where
  "calculateDesiredWorkers model requests metrics =
    (let base = 1;
         base = (if GPUUtilization metrics > 70 then wrap64 (base + 1) else base);
         base = (if requests > 10 then wrap64 (base + requests sdiv 5) else base)
     in if base > maxByVRAM metrics then maxByVRAM metrics else base)"


section \<open>Strings (strconv, strings)\<close>

text \<open>\<open>strconv.Itoa\<close>: the decimal representation of an integer.\<close>

definition digit_char :: "nat \<Rightarrow> char" where
  "digit_char d = ''0123456789'' ! d"

fun nat_digits :: "nat \<Rightarrow> string" where
  "nat_digits n = (if n < 10 then [digit_char n] else nat_digits (n div 10) @ [digit_char (n mod 10)])"

declare nat_digits.simps [simp del]

definition Itoa :: "int \<Rightarrow> string" where
  "Itoa i = (if i < 0 then CHR ''-'' # nat_digits (nat (- i)) else nat_digits (nat i))"


text \<open>
  \<open>strings.TrimSpace\<close> on the ASCII white space characters (tab, line feed, vertical tab,
  form feed, carriage return, space), and \<open>strings.Split\<close> with a separator of one
  character: the result always has at least one element.
\<close>

definition isSpace :: "char \<Rightarrow> bool" where
  "isSpace c \<longleftrightarrow> of_char c \<in> {9, 10, 11, 12, 13, 32 :: nat}"

definition TrimSpace :: "string \<Rightarrow> string" where
  "TrimSpace s = rev (dropWhile isSpace (rev (dropWhile isSpace s)))"

fun Split :: "string \<Rightarrow> char \<Rightarrow> string list" where
  "Split [] sep = [[]]"
| "Split (c # cs) sep =
     (if c = sep then [] # Split cs sep
      else (case Split cs sep of [] \<Rightarrow> [[c]] | p # ps \<Rightarrow> (c # p) # ps))"

section \<open>The metrics probe (getSystemMetrics)\<close>

text \<open>
  What \<open>exec.Command("nvidia-smi", ...).Output()\<close> gave: an error, or the bytes of the
  standard output. \<open>strconv.ParseFloat\<close> is a parameter: the function from a string to
  the value it returns (the source drops its error, so a string that is no number
  reads as 0).
\<close>

datatype probe = ProbeError | ProbeOutput string

text \<open>
  Ways in which a call does not return: the goroutine blocks for ever on a mutex it
  holds itself, or it panics on an index out of range.
\<close>

datatype go_error = Blocked | IndexOutOfRange

definition zeroMetrics :: ScalingMetrics where
  "zeroMetrics = \<lparr>GPUUtilization = 0, VRAMUsed = 0, Requests = 0\<rparr>"

definition getSystemMetrics :: "(string \<Rightarrow> real) \<Rightarrow> probe \<Rightarrow> go_error + ScalingMetrics" where
  "getSystemMetrics parseFloat pr =
    (case pr of
       ProbeError \<Rightarrow> Inr zeroMetrics
     | ProbeOutput out \<Rightarrow>
        (case Split (TrimSpace out) CHR '','' of
           [] \<Rightarrow> Inl IndexOutOfRange
         | [p0] \<Rightarrow> Inl IndexOutOfRange
         | p0 # p1 # _ \<Rightarrow>
             Inr \<lparr>GPUUtilization = parseFloat (TrimSpace p0),
                  VRAMUsed = parseFloat (TrimSpace p1),
                  Requests = 0\<rparr>))"

section \<open>The shared state\<close>

text \<open>
  The package variables of both files. \<open>activeModels\<close> is a \<open>sync.Map\<close>: an association
  list whose order stands for the order in which \<open>Range\<close> visits the entries (Go leaves
  it open); \<open>Store\<close> replaces the value of a key that is present. \<open>currentWorkers\<close> and
  \<open>requestCounts\<close> are Go maps, read with the zero value for a missing key.
  \<open>locked\<close> is \<open>scalingLock\<close>. \<open>calls\<close> is not a variable of the program: it lists
  the container runtime commands issued so far, oldest first.
\<close>

datatype call = DockerRun string string | DockerStop string string

record state =
  locked :: bool
  currentWorkers :: "string \<rightharpoonup> int"
  requestCounts :: "string \<rightharpoonup> int"
  nextPort :: int
  activeModels :: "(string \<times> string) list"
  calls :: "call list"

text \<open>
  The container runtime: whether a command succeeds, given the commands issued before
  it.
\<close>

type_synonym runtime = "call list \<Rightarrow> call \<Rightarrow> bool"


text \<open>A runtime whose first command succeeds and whose later commands fail.\<close>

definition succeeds_first :: runtime where
  "succeeds_first history c \<longleftrightarrow> history = []"

definition basePort :: int where
  "basePort = 11434"

definition init_state :: state where
  "init_state = \<lparr>locked = False, currentWorkers = Map.empty, requestCounts = Map.empty,
     nextPort = 11434, activeModels = [], calls = []\<rparr>"

definition get0 :: "(string \<rightharpoonup> int) \<Rightarrow> string \<Rightarrow> int" where
  "get0 m k = (case m k of None \<Rightarrow> 0 | Some v \<Rightarrow> v)"

definition Load :: "string \<Rightarrow> (string \<times> string) list \<Rightarrow> string option" where
  "Load k m = map_of m k"

definition Store :: "string \<Rightarrow> string \<Rightarrow> (string \<times> string) list \<Rightarrow> (string \<times> string) list" where
  "Store k v m = AList.update k v m"

definition Delete :: "string \<Rightarrow> (string \<times> string) list \<Rightarrow> (string \<times> string) list" where
  "Delete k m = AList.delete k m"

text \<open>
  \<open>sync.Mutex\<close> is not reentrant: \<open>Lock\<close> on a mutex that is held blocks until another
  goroutine releases it. Every function here that takes \<open>scalingLock\<close> releases it
  itself (\<open>defer\<close>), so a \<open>Lock\<close> reached while the lock is held by the caller never
  returns.
\<close>

definition Lock :: "state \<Rightarrow> go_error + state" where
  "Lock s = (if locked s then Inl Blocked else Inr (s\<lparr>locked := True\<rparr>))"

definition Unlock :: "state \<Rightarrow> state" where
  "Unlock s = s\<lparr>locked := False\<rparr>"

section \<open>The registry and the port allocators\<close>

definition getActiveModels :: "state \<Rightarrow> string list" where
  "getActiveModels s = map fst (activeModels s)"

definition countActiveModels :: "state \<Rightarrow> int" where
  "countActiveModels s = int (length (activeModels s))"

definition getModelPorts :: "state \<Rightarrow> string \<Rightarrow> string list" where
  "getModelPorts s model = map snd (filter (\<lambda>(key, value). key = model) (activeModels s))"

definition findAvailablePort :: "state \<Rightarrow> go_error + (string \<times> state)" where
  "findAvailablePort s =
    (case Lock s of
       Inl e \<Rightarrow> Inl e
     | Inr s1 \<Rightarrow>
         (let port = nextPort s1;
              s2 = s1\<lparr>nextPort := wrap64 (nextPort s1 + 1)\<rparr>
          in Inr (Itoa port, Unlock s2)))"

section \<open>Starting and stopping containers\<close>

text \<open>
  Both return whether the error is \<open>nil\<close>. The model pull that \<open>startOllamaContainer\<close>
  starts in a goroutine of its own touches none of the variables and is left out.
\<close>

definition startOllamaContainer :: "runtime \<Rightarrow> string \<Rightarrow> string \<Rightarrow> state \<Rightarrow> bool \<times> state" where
  "startOllamaContainer rt model port s =
    (let ok = rt (calls s) (DockerRun model port);
         s1 = s\<lparr>calls := calls s @ [DockerRun model port]\<rparr>
     in if \<not> ok then (False, s1)
        else (True, s1\<lparr>activeModels := Store model port (activeModels s1)\<rparr>))"

definition stopOllamaContainer :: "runtime \<Rightarrow> string \<Rightarrow> string \<Rightarrow> state \<Rightarrow> bool \<times> state" where
  "stopOllamaContainer rt model port s =
    (let s1 = s\<lparr>activeModels := Delete model (activeModels s)\<rparr>;
         ok = rt (calls s1) (DockerStop model port)
     in (ok, s1\<lparr>calls := calls s1 @ [DockerStop model port]\<rparr>))"

definition ensureModelRunning :: "runtime \<Rightarrow> string \<Rightarrow> state \<Rightarrow> string option \<times> state" where
  "ensureModelRunning rt model s =
    (case Load model (activeModels s) of
       Some port \<Rightarrow> (Some port, s)
     | None \<Rightarrow>
         (let port = Itoa (wrap64 (basePort + countActiveModels s))
          in case startOllamaContainer rt model port s of
               (False, s1) \<Rightarrow> (None, s1)
             | (True, s1) \<Rightarrow> (Some port, s1)))"

section \<open>Scaling\<close>

definition TrackRequest :: "string \<Rightarrow> state \<Rightarrow> go_error + state" where
  "TrackRequest model s =
    (case Lock s of
       Inl e \<Rightarrow> Inl e
     | Inr s1 \<Rightarrow>
         Inr (Unlock (s1\<lparr>requestCounts :=
           (requestCounts s1)(model \<mapsto> wrap64 (get0 (requestCounts s1) model + 1))\<rparr>)))"

text \<open>
  The loop of \<open>scaleUpModel\<close>, from the counter \<open>i\<close>: a failed start goes on with the
  next \<open>i\<close> (\<open>continue\<close>), a successful one counts the worker first.
\<close>

function scaleUp_loop :: "runtime \<Rightarrow> string \<Rightarrow> int \<Rightarrow> int \<Rightarrow> state \<Rightarrow> go_error + state" where
  "scaleUp_loop rt model count i s =
    (if i < count then
       (case findAvailablePort s of
          Inl e \<Rightarrow> Inl e
        | Inr (port, s1) \<Rightarrow>
            (case startOllamaContainer rt model port s1 of
               (False, s2) \<Rightarrow> scaleUp_loop rt model count (i + 1) s2
             | (True, s2) \<Rightarrow>
                 scaleUp_loop rt model count (i + 1)
                   (s2\<lparr>currentWorkers :=
                      (currentWorkers s2)(model \<mapsto> wrap64 (get0 (currentWorkers s2) model + 1))\<rparr>)))
     else Inr s)"
  by pat_completeness auto
termination
  by (relation "measure (\<lambda>(rt, model, count, i, s). nat (count - i))") auto

declare scaleUp_loop.simps [simp del]

definition scaleUpModel :: "runtime \<Rightarrow> string \<Rightarrow> int \<Rightarrow> state \<Rightarrow> go_error + state" where
  "scaleUpModel rt model count s = scaleUp_loop rt model count 0 s"

text \<open>
  What one pass through the body of that loop does to the state when the lock is free:
  the port is taken, the container is started, and the worker is counted if the start
  succeeded. The facts about the loop are stated with it.
\<close>

definition scaleUp_pass :: "runtime \<Rightarrow> string \<Rightarrow> state \<Rightarrow> state" where
  "scaleUp_pass rt model s =
    (case startOllamaContainer rt model (Itoa (nextPort s))
            (s\<lparr>locked := False, nextPort := wrap64 (nextPort s + 1)\<rparr>) of
       (False, s2) \<Rightarrow> s2
     | (True, s2) \<Rightarrow>
         s2\<lparr>currentWorkers :=
              (currentWorkers s2)(model \<mapsto> wrap64 (get0 (currentWorkers s2) model + 1))\<rparr>)"

text \<open>
  The loop of \<open>scaleDownModel\<close>: \<open>ports\<close> is read once, before the loop, and the loop
  runs only while it holds more than one port.
\<close>

function scaleDown_loop :: "runtime \<Rightarrow> string \<Rightarrow> int \<Rightarrow> string list \<Rightarrow> int \<Rightarrow> state \<Rightarrow> state" where
  "scaleDown_loop rt model count ports i s =
    (if i < count \<and> length ports > 1 then
       (let port = last ports
        in case stopOllamaContainer rt model port s of
             (False, s1) \<Rightarrow> scaleDown_loop rt model count ports (i + 1) s1
           | (True, s1) \<Rightarrow>
               scaleDown_loop rt model count ports (i + 1)
                 (s1\<lparr>currentWorkers :=
                    (currentWorkers s1)(model \<mapsto> wrap64 (get0 (currentWorkers s1) model - 1))\<rparr>))
     else s)"
  by pat_completeness auto
termination
  by (relation "measure (\<lambda>(rt, model, count, ports, i, s). nat (count - i))") auto

declare scaleDown_loop.simps [simp del]

definition scaleDownModel :: "runtime \<Rightarrow> string \<Rightarrow> int \<Rightarrow> state \<Rightarrow> state" where
  "scaleDownModel rt model count s = scaleDown_loop rt model count (getModelPorts s model) 0 s"

text \<open>The body of the loop over the models of one scaling cycle, and the cycle.\<close>

fun scaleModels_loop :: "runtime \<Rightarrow> ScalingMetrics \<Rightarrow> string list \<Rightarrow> state \<Rightarrow> go_error + state" where
  "scaleModels_loop rt metrics [] s = Inr s"
| "scaleModels_loop rt metrics (model # models) s =
    (let requests = get0 (requestCounts s) model;
         workers = get0 (currentWorkers s) model;
         desiredWorkers = calculateDesiredWorkers model requests metrics
     in case (if desiredWorkers > workers then
                scaleUpModel rt model (wrap64 (desiredWorkers - workers)) s
              else if desiredWorkers < workers then
                Inr (scaleDownModel rt model (wrap64 (workers - desiredWorkers)) s)
              else Inr s) of
          Inl e \<Rightarrow> Inl e
        | Inr s1 \<Rightarrow>
            scaleModels_loop rt metrics models
              (s1\<lparr>requestCounts := (requestCounts s1)(model \<mapsto> 0)\<rparr>))"

definition scaleModelsBasedOnDemand ::
  "runtime \<Rightarrow> (string \<Rightarrow> real) \<Rightarrow> probe \<Rightarrow> state \<Rightarrow> go_error + state" where
  "scaleModelsBasedOnDemand rt parseFloat pr s =
    (case Lock s of
       Inl e \<Rightarrow> Inl e
     | Inr s1 \<Rightarrow>
         (case getSystemMetrics parseFloat pr of
            Inl e \<Rightarrow> Inl e
          | Inr metrics \<Rightarrow>
              (case scaleModels_loop rt metrics (getActiveModels s1) s1 of
                 Inl e \<Rightarrow> Inl e
               | Inr s2 \<Rightarrow> Inr (Unlock s2))))"

section \<open>Request routing, step by step\<close>

text \<open>
  \<open>ensureModelRunning\<close> takes no lock, so two requests can be inside it at once. Its
  steps, each of them one access to the shared state: the \<open>Load\<close>, the count of the
  active models, the \<open>docker run\<close>, the \<open>Store\<close>. A goroutine is at one of these
  steps or has returned (\<open>None\<close> for the error).
\<close>

datatype pc = AtLoad | AtCount | AtRun string | AtStore string | Returned "string option"

fun route_step :: "runtime \<Rightarrow> string \<Rightarrow> pc \<Rightarrow> state \<Rightarrow> pc \<times> state" where
  "route_step rt model AtLoad s =
     (case Load model (activeModels s) of
        Some port \<Rightarrow> (Returned (Some port), s)
      | None \<Rightarrow> (AtCount, s))"
| "route_step rt model AtCount s =
     (AtRun (Itoa (wrap64 (basePort + countActiveModels s))), s)"
| "route_step rt model (AtRun port) s =
     (let ok = rt (calls s) (DockerRun model port);
          s1 = s\<lparr>calls := calls s @ [DockerRun model port]\<rparr>
      in if \<not> ok then (Returned None, s1) else (AtStore port, s1))"
| "route_step rt model (AtStore port) s =
     (Returned (Some port), s\<lparr>activeModels := Store model port (activeModels s)\<rparr>)"
| "route_step rt model (Returned r) s = (Returned r, s)"

text \<open>
  Two requests for the same model under a schedule: each entry says which of the two
  goroutines takes its next step (\<open>False\<close> the first, \<open>True\<close> the second).
\<close>

fun interleave :: "runtime \<Rightarrow> string \<Rightarrow> bool list \<Rightarrow> pc \<times> pc \<times> state \<Rightarrow> pc \<times> pc \<times> state" where
  "interleave rt model [] c = c"
| "interleave rt model (second # sched) (p1, p2, s) =
     (if second then
        (case route_step rt model p2 s of (p2', s') \<Rightarrow> interleave rt model sched (p1, p2', s'))
      else
        (case route_step rt model p1 s of (p1', s') \<Rightarrow> interleave rt model sched (p1', p2, s')))"

section \<open>Sequences of calls and reachable states\<close>


text \<open>
  A \<open>sync.Map\<close> holds one entry for a key. On the association list this is the
  distinctness of the keys.
\<close>

definition registry_ok :: "state \<Rightarrow> bool" where
  "registry_ok s \<longleftrightarrow> distinct (map fst (activeModels s))"

text \<open>
  The states the program can be in: the initial one, and every state that a call of one
  of its functions, or one step of a request inside \<open>ensureModelRunning\<close>, returns from
  a reachable state, with any container runtime and any probe result.
\<close>

inductive reachable :: "state \<Rightarrow> bool" where
  reach_init: "reachable init_state"
| reach_TrackRequest:
    "reachable s \<Longrightarrow> TrackRequest model s = Inr s' \<Longrightarrow> reachable s'"
| reach_ensureModelRunning:
    "reachable s \<Longrightarrow> ensureModelRunning rt model s = (r, s') \<Longrightarrow> reachable s'"
| reach_route_step:
    "reachable s \<Longrightarrow> route_step rt model p s = (p', s') \<Longrightarrow> reachable s'"
| reach_scaleModelsBasedOnDemand:
    "reachable s \<Longrightarrow> scaleModelsBasedOnDemand rt parseFloat pr s = Inr s' \<Longrightarrow> reachable s'"
| reach_scaleUpModel:
    "reachable s \<Longrightarrow> scaleUpModel rt model count s = Inr s' \<Longrightarrow> reachable s'"
| reach_scaleDownModel:
    "reachable s \<Longrightarrow> scaleDownModel rt model count s = s' \<Longrightarrow> reachable s'"
| reach_startOllamaContainer:
    "reachable s \<Longrightarrow> startOllamaContainer rt model port s = (ok, s') \<Longrightarrow> reachable s'"
| reach_stopOllamaContainer:
    "reachable s \<Longrightarrow> stopOllamaContainer rt model port s = (ok, s') \<Longrightarrow> reachable s'"
| reach_findAvailablePort:
    "reachable s \<Longrightarrow> findAvailablePort s = Inr (port, s') \<Longrightarrow> reachable s'"

section \<open>Integer and string facts\<close>

lemma wrap64_id: "is_int64 x \<Longrightarrow> wrap64 x = x"
  by (simp add: wrap64_def is_int64_def)

lemma is_int64_wrap64: "is_int64 (wrap64 x)"
proof -
  have "0 \<le> (x + 2 ^ 63) mod (2 ^ 64 :: int)" by simp
  moreover have "(x + 2 ^ 63) mod (2 ^ 64 :: int) < 2 ^ 64" by simp
  ultimately show ?thesis by (simp add: wrap64_def is_int64_def)
qed

lemma sdiv_nonneg: "0 \<le> (a::int) \<Longrightarrow> a sdiv 5 = a div 5"
  by (cases "a = 0") (simp_all add: signed_divide_int_def)



lemma wrap64_2: "wrap64 2 = 2"
  by (simp add: wrap64_def)

lemma base_plus_quota:
  assumes "0 \<le> requests" and "requests < 2 ^ 63" and "b = 1 \<or> b = 2"
  shows "wrap64 (b + requests sdiv 5) = b + requests div 5"
proof -
  have "is_int64 (b + requests div 5)"
    using assms by (auto simp: is_int64_def)
  then show ?thesis
    using assms(1) by (simp add: sdiv_nonneg wrap64_id)
qed









lemma Itoa_11434: "Itoa 11434 = ''11434''"
  by (simp add: Itoa_def nat_digits.simps digit_char_def)

lemma Itoa_11435: "Itoa 11435 = ''11435''"
  by (simp add: Itoa_def nat_digits.simps digit_char_def)

section \<open>Facts about the registry\<close>

lemma filter_key_absent:
  "model \<notin> fst ` set al \<Longrightarrow> filter (\<lambda>(key, value). key = model) al = []"
  by (induction al) auto

lemma filter_key_distinct:
  "distinct (map fst al) \<Longrightarrow> length (filter (\<lambda>(key, value). key = model) al) \<le> 1"
  by (induction al) (auto simp: filter_key_absent)

lemma getModelPorts_le1: "registry_ok s \<Longrightarrow> length (getModelPorts s model) \<le> 1"
  using filter_key_distinct [of "activeModels s" model]
  by (simp add: registry_ok_def getModelPorts_def)

lemma scaleDown_loop_short: "length ports \<le> 1 \<Longrightarrow> scaleDown_loop rt model count ports i s = s"
  by (simp add: scaleDown_loop.simps)

lemma scaleDownModel_noop: "registry_ok s \<Longrightarrow> scaleDownModel rt model count s = s"
  unfolding scaleDownModel_def by (rule scaleDown_loop_short) (rule getModelPorts_le1)

section \<open>Facts about the functions\<close>

lemma registry_ok_update [simp]:
  "registry_ok (s\<lparr>calls := c\<rparr>) = registry_ok s"
  "registry_ok (s\<lparr>locked := b\<rparr>) = registry_ok s"
  "registry_ok (s\<lparr>nextPort := n\<rparr>) = registry_ok s"
  "registry_ok (s\<lparr>currentWorkers := w\<rparr>) = registry_ok s"
  "registry_ok (s\<lparr>requestCounts := q\<rparr>) = registry_ok s"
  by (simp_all add: registry_ok_def)

lemma registry_ok_start:
  "registry_ok s \<Longrightarrow> registry_ok (snd (startOllamaContainer rt model port s))"
  by (simp add: startOllamaContainer_def Let_def registry_ok_def Store_def distinct_update)

lemma registry_ok_stop:
  "registry_ok s \<Longrightarrow> registry_ok (snd (stopOllamaContainer rt model port s))"
  by (simp add: stopOllamaContainer_def Let_def registry_ok_def Delete_def distinct_delete)

lemma findAvailablePort_free:
  "\<not> locked s \<Longrightarrow>
     findAvailablePort s =
       Inr (Itoa (nextPort s), s\<lparr>locked := False, nextPort := wrap64 (nextPort s + 1)\<rparr>)"
  by (simp add: findAvailablePort_def Lock_def Unlock_def Let_def)

lemma findAvailablePort_held: "locked s \<Longrightarrow> findAvailablePort s = Inl Blocked"
  by (simp add: findAvailablePort_def Lock_def)

lemma scaleUp_loop_done: "\<not> i < count \<Longrightarrow> scaleUp_loop rt model count i s = Inr s"
  by (simp add: scaleUp_loop.simps)

lemma scaleUp_loop_held: "i < count \<Longrightarrow> locked s \<Longrightarrow> scaleUp_loop rt model count i s = Inl Blocked"
  by (simp add: scaleUp_loop.simps [of rt model count i s] findAvailablePort_held)

lemma scaleUp_loop_pass:
  "i < count \<Longrightarrow> \<not> locked s \<Longrightarrow>
     scaleUp_loop rt model count i s = scaleUp_loop rt model count (i + 1) (scaleUp_pass rt model s)"
  by (simp add: scaleUp_loop.simps [of rt model count i s] findAvailablePort_free scaleUp_pass_def
        split: prod.splits bool.splits)



lemma scaleUp_pass_requestCounts: "requestCounts (scaleUp_pass rt model s) = requestCounts s"
  by (simp add: scaleUp_pass_def startOllamaContainer_def Let_def)

lemma scaleUp_pass_registry_ok: "registry_ok s \<Longrightarrow> registry_ok (scaleUp_pass rt model s)"
  by (simp add: scaleUp_pass_def startOllamaContainer_def Let_def registry_ok_def Store_def distinct_update)

text \<open>A property that every pass keeps holds after the loop.\<close>

lemma scaleUp_loop_invariant:
  assumes pass: "\<And>s. P s \<Longrightarrow> P (scaleUp_pass rt model s)"
  shows "P s \<Longrightarrow> scaleUp_loop rt model count i s = Inr s' \<Longrightarrow> P s'"
proof (induction "nat (count - i)" arbitrary: i s)
  case 0
  then have "\<not> i < count" by simp
  with "0.prems" show ?case by (simp add: scaleUp_loop_done)
next
  case (Suc k)
  then have less: "i < count" by simp
  show ?case
  proof (cases "locked s")
    case True
    with less Suc.prems show ?thesis by (simp add: scaleUp_loop_held)
  next
    case False
    with less Suc.prems have "scaleUp_loop rt model count (i + 1) (scaleUp_pass rt model s) = Inr s'"
      by (simp add: scaleUp_loop_pass)
    moreover from Suc.hyps(2) have "k = nat (count - (i + 1))" by simp
    moreover have "P (scaleUp_pass rt model s)" using Suc.prems(1) by (rule pass)
    ultimately show ?thesis using Suc.hyps(1) by blast
  qed
qed

lemma scaleUpModel_registry_ok:
  "registry_ok s \<Longrightarrow> scaleUpModel rt model count s = Inr s' \<Longrightarrow> registry_ok s'"
  unfolding scaleUpModel_def
  by (rule scaleUp_loop_invariant [where P = registry_ok]) (rule scaleUp_pass_registry_ok)

lemma scaleUpModel_held:
  assumes "locked s" and "scaleUpModel rt model count s = Inr s'"
  shows "s' = s"
proof (cases "0 < count")
  case True
  with assms show ?thesis by (simp add: scaleUpModel_def scaleUp_loop_held)
next
  case False
  with assms show ?thesis by (simp add: scaleUpModel_def scaleUp_loop_done)
qed

lemma scaleModels_loop_held:
  assumes "locked s" and "registry_ok s"
    and "scaleModels_loop rt metrics models s = Inr s'"
  shows "s' = s\<lparr>requestCounts := (\<lambda>m. if m \<in> set models then Some 0 else requestCounts s m)\<rparr>"
  using assms
proof (induction models arbitrary: s)
  case Nil
  then show ?case by simp
next
  case (Cons model models)
  let ?d = "calculateDesiredWorkers model (get0 (requestCounts s) model) metrics"
  let ?w = "get0 (currentWorkers s) model"
  let ?r = "if ?d > ?w then scaleUpModel rt model (wrap64 (?d - ?w)) s
            else if ?d < ?w then Inr (scaleDownModel rt model (wrap64 (?w - ?d)) s)
            else Inr s"
  from Cons.prems(3) obtain s1 where r: "?r = Inr s1"
    and rest: "scaleModels_loop rt metrics models (s1\<lparr>requestCounts := (requestCounts s1)(model \<mapsto> 0)\<rparr>) = Inr s'"
    by (auto simp: Let_def split: sum.splits)
  have s1: "s1 = s"
    using r Cons.prems(1,2) scaleUpModel_held [of s rt model _ s1]
    by (auto simp: scaleDownModel_noop split: if_splits)
  let ?s2 = "s\<lparr>requestCounts := (requestCounts s)(model \<mapsto> 0)\<rparr>"
  have "s' = ?s2\<lparr>requestCounts := (\<lambda>m. if m \<in> set models then Some 0 else requestCounts ?s2 m)\<rparr>"
    using Cons.IH [of ?s2] Cons.prems(1,2) rest s1 by simp
  then show ?case by (simp add: fun_eq_iff)
qed

lemma scaleModelsBasedOnDemand_returns:
  assumes "registry_ok s" and "scaleModelsBasedOnDemand rt parseFloat pr s = Inr s'"
  shows "s' = s\<lparr>locked := False,
                 requestCounts := (\<lambda>m. if m \<in> set (getActiveModels s) then Some 0
                                       else requestCounts s m)\<rparr>"
proof -
  from assms(2) have free: "\<not> locked s"
    by (auto simp: scaleModelsBasedOnDemand_def Lock_def split: if_splits)
  let ?s1 = "s\<lparr>locked := True\<rparr>"
  from assms(2) free obtain metrics s2
    where loop: "scaleModels_loop rt metrics (getActiveModels ?s1) ?s1 = Inr s2"
      and s': "s' = Unlock s2"
    by (auto simp: scaleModelsBasedOnDemand_def Lock_def split: sum.splits)
  have "s2 = ?s1\<lparr>requestCounts := (\<lambda>m. if m \<in> set (getActiveModels ?s1) then Some 0
                                          else requestCounts ?s1 m)\<rparr>"
    using loop assms(1) by (intro scaleModels_loop_held) simp_all
  with s' show ?thesis
    by (simp add: Unlock_def getActiveModels_def cong: if_cong)
qed

lemma registry_ok_TrackRequest:
  "registry_ok s \<Longrightarrow> TrackRequest model s = Inr s' \<Longrightarrow> registry_ok s'"
  by (auto simp: TrackRequest_def Lock_def Unlock_def split: if_splits)

lemma registry_ok_ensureModelRunning:
  "registry_ok s \<Longrightarrow> registry_ok (snd (ensureModelRunning rt model s))"
proof (cases "Load model (activeModels s)")
  case (Some port)
  assume "registry_ok s"
  with Some show ?thesis by (simp add: ensureModelRunning_def)
next
  case None
  assume ok: "registry_ok s"
  let ?port = "Itoa (wrap64 (basePort + countActiveModels s))"
  obtain b s1 where st: "startOllamaContainer rt model ?port s = (b, s1)"
    by (cases "startOllamaContainer rt model ?port s")
  with None have "snd (ensureModelRunning rt model s) = s1"
    by (simp add: ensureModelRunning_def split: bool.splits)
  with registry_ok_start [OF ok, of rt model ?port] st show ?thesis by simp
qed

lemma registry_ok_route_step:
  "registry_ok s \<Longrightarrow> registry_ok (snd (route_step rt model p s))"
  by (cases p)
     (auto simp: Let_def registry_ok_def Store_def distinct_update split: option.splits)

lemma registry_ok_init: "registry_ok init_state"
  by (simp add: registry_ok_def init_state_def)

lemma reachable_registry_ok: "reachable s \<Longrightarrow> registry_ok s"
proof (induction rule: reachable.induct)
  case reach_init
  show ?case by (rule registry_ok_init)
next
  case (reach_TrackRequest s model s')
  then show ?case by (blast intro: registry_ok_TrackRequest)
next
  case (reach_ensureModelRunning s rt model r s')
  with registry_ok_ensureModelRunning [of s rt model] show ?case by simp
next
  case (reach_route_step s rt model p p' s')
  with registry_ok_route_step [of s rt model p] show ?case by simp
next
  case (reach_scaleModelsBasedOnDemand s rt parseFloat pr s')
  with scaleModelsBasedOnDemand_returns [of s rt parseFloat pr s'] show ?case by simp
next
  case (reach_scaleUpModel s rt model count s')
  then show ?case by (blast intro: scaleUpModel_registry_ok)
next
  case (reach_scaleDownModel s rt model count s')
  then show ?case by (simp add: scaleDownModel_noop)
next
  case (reach_startOllamaContainer s rt model port ok s')
  with registry_ok_start [of s rt model port] show ?case by simp
next
  case (reach_stopOllamaContainer s rt model port ok s')
  with registry_ok_stop [of s rt model port] show ?case by simp
next
  case (reach_findAvailablePort s port s')
  then show ?case
    by (auto simp: findAvailablePort_def Lock_def Unlock_def Let_def split: if_splits)
qed

lemma get0_upd_same [simp]: "get0 (f(k \<mapsto> v)) k = v"
  by (simp add: get0_def)

lemma get0_upd_other [simp]: "b \<noteq> k \<Longrightarrow> get0 (f(k \<mapsto> v)) b = get0 f b"
  by (simp add: get0_def)


lemma TrackRequest_held: "locked s \<Longrightarrow> TrackRequest model s = Inl Blocked"
  by (simp add: TrackRequest_def Lock_def)



lemma scaleUpModel_under_lock:
  "locked s \<Longrightarrow> 0 < count \<Longrightarrow> scaleUpModel rt model count s = Inl Blocked"
  by (simp add: scaleUpModel_def scaleUp_loop_held)

text \<open>
  Inside a scaling cycle the lock is held: a pass for a model that wants more workers
  than it has blocks in \<open>findAvailablePort\<close>, before any container is started.
\<close>

lemma scaleModels_loop_blocks:
  assumes "locked s"
    and "calculateDesiredWorkers model (get0 (requestCounts s) model) metrics
           > get0 (currentWorkers s) model"
    and "0 < wrap64 (calculateDesiredWorkers model (get0 (requestCounts s) model) metrics
                     - get0 (currentWorkers s) model)"
  shows "scaleModels_loop rt metrics (model # models) s = Inl Blocked"
  using assms by (simp add: Let_def scaleUpModel_under_lock)

section \<open>Facts about request routing\<close>

lemma route_first_returns:
  "interleave rt model [False, False, False, False] (AtLoad, p2, s) =
     (Returned (fst (ensureModelRunning rt model s)), p2, snd (ensureModelRunning rt model s))"
  by (simp add: ensureModelRunning_def startOllamaContainer_def Let_def
        split: option.splits)

lemma route_second_returns:
  "interleave rt model [True, True, True, True] (p1, AtLoad, s) =
     (p1, Returned (fst (ensureModelRunning rt model s)), snd (ensureModelRunning rt model s))"
  by (simp add: ensureModelRunning_def startOllamaContainer_def Let_def
        split: option.splits)

lemma interleave_append:
  "interleave rt model (xs @ ys) c = interleave rt model ys (interleave rt model xs c)"
proof (induction xs arbitrary: c)
  case Nil
  show ?case by simp
next
  case (Cons x xs)
  obtain p1 p2 s where c: "c = (p1, p2, s)" by (cases c)
  show ?case
    unfolding c using Cons.IH by (simp split: prod.splits)
qed

lemma filter_key_update_new:
  "model \<notin> fst ` set al \<Longrightarrow>
     filter (\<lambda>(key, value). key = model) (AList.update model port al) = [(model, port)]"
  by (induction al) auto

section \<open>Facts about the probe\<close>

lemma count_dropWhile: "\<not> P c \<Longrightarrow> count_list (dropWhile P xs) c = count_list xs c"
  by (induction xs) auto

lemma count_TrimSpace: "count_list (TrimSpace out) CHR '','' = count_list out CHR '',''"
  by (simp add: TrimSpace_def count_dropWhile isSpace_def)

lemma length_Split: "length (Split s sep) = Suc (count_list s sep)"
  by (induction s) (auto split: list.splits)

lemma getSystemMetrics_returns_iff:
  "(\<exists>metrics. getSystemMetrics parseFloat pr = Inr metrics)
     \<longleftrightarrow> (case pr of ProbeError \<Rightarrow> True | ProbeOutput out \<Rightarrow> CHR '','' \<in> set out)"
proof (cases pr)
  case ProbeError
  then show ?thesis by (simp add: getSystemMetrics_def)
next
  case (ProbeOutput out)
  have len: "length (Split (TrimSpace out) CHR '','') = Suc (count_list out CHR '','')"
    by (simp add: length_Split count_TrimSpace)
  show ?thesis
  proof (cases "CHR '','' \<in> set out")
    case True
    then have "count_list out CHR '','' \<noteq> 0" by (simp add: count_list_0_iff)
    with len have "length (Split (TrimSpace out) CHR '','') \<ge> 2" by simp
    then obtain p0 p1 ps where "Split (TrimSpace out) CHR '','' = p0 # p1 # ps"
      by (cases "Split (TrimSpace out) CHR '',''" rule: list.exhaust; cases "tl (Split (TrimSpace out) CHR '','')") auto
    with ProbeOutput True show ?thesis by (simp add: getSystemMetrics_def)
  next
    case False
    then have "count_list out CHR '','' = 0" by simp
    with len have "length (Split (TrimSpace out) CHR '','') = 1" by simp
    then obtain p0 where "Split (TrimSpace out) CHR '','' = [p0]"
      by (cases "Split (TrimSpace out) CHR '',''") auto
    with ProbeOutput False show ?thesis by (simp add: getSystemMetrics_def)
  qed
qed

section \<open>The desired worker count\<close>



text \<open>
  Claim C6 says that a VRAM cap of 0 or less gives a result of exactly 0. A reading of
  -8000 MB gives a cap of -1, and the result is -1.
\<close>

theorem calculateDesiredWorkers_negative_cap_counterexample:
  "maxByVRAM \<lparr>GPUUtilization = 0, VRAMUsed = - 8000, Requests = 0\<rparr> \<le> 0
   \<and> calculateDesiredWorkers ''llama'' 0 \<lparr>GPUUtilization = 0, VRAMUsed = - 8000, Requests = 0\<rparr> = - 1
   \<and> calculateDesiredWorkers ''llama'' 0 \<lparr>GPUUtilization = 0, VRAMUsed = - 8000, Requests = 0\<rparr> \<noteq> 0"
  by (simp add: calculateDesiredWorkers_def maxByVRAM_def int_of_float_def)

text \<open>
  Claim C6, as the code has it. When the VRAM cap is 0 or negative,
  \<open>calculateDesiredWorkers\<close> returns the cap itself: 0 for a cap of 0, the negative
  cap otherwise.
\<close>

theorem calculateDesiredWorkers_returns_cap:
  assumes "is_int64 requests" and "maxByVRAM metrics \<le> 0"
  shows "calculateDesiredWorkers model requests metrics = maxByVRAM metrics"
proof -
  have nonneg: "0 \<le> requests" and small: "requests < 2 ^ 63" if "10 < requests"
    using assms(1) that by (simp_all add: is_int64_def)
  have r1: "wrap64 (1 + requests sdiv 5) = 1 + requests div 5" if "10 < requests"
    using nonneg [OF that] small [OF that] by (rule base_plus_quota) simp
  have r2: "wrap64 (2 + requests sdiv 5) = 2 + requests div 5" if "10 < requests"
    using nonneg [OF that] small [OF that] by (rule base_plus_quota) simp
  have p: "0 \<le> requests div 5" if "10 < requests"
    using that by simp
  show ?thesis
    using assms(2) p unfolding calculateDesiredWorkers_def
    by (auto simp add: Let_def r1 r2 wrap64_2)
qed

theorem calculateDesiredWorkers_returns_cap_witness:
  "is_int64 25
   \<and> maxByVRAM \<lparr>GPUUtilization = 90, VRAMUsed = 4000, Requests = 0\<rparr> \<le> 0
   \<and> calculateDesiredWorkers ''llama'' 25 \<lparr>GPUUtilization = 90, VRAMUsed = 4000, Requests = 0\<rparr> = 0"
  using calculateDesiredWorkers_returns_cap
    [of 25 "\<lparr>GPUUtilization = 90, VRAMUsed = 4000, Requests = 0\<rparr>" "''llama''"]
  by (simp add: is_int64_def maxByVRAM_def int_of_float_def)

lemmas eval_defs = init_state_def basePort_def countActiveModels_def wrap64_def
  Load_def Store_def Delete_def Lock_def Unlock_def get0_def getActiveModels_def
  getModelPorts_def Itoa_11434 Itoa_11435 Let_def

section \<open>The scaling cycle under its own lock\<close>

text \<open>
  A cycle in the state after one request for \<open>a\<close>, with 20000 MB of VRAM in use: one
  worker is wanted, \<open>currentWorkers\<close> has none, and the cycle blocks in its first
  \<open>findAvailablePort\<close>.
\<close>

lemma scaleModelsBasedOnDemand_blocks_example:
  "\<exists>s1 s2. TrackRequest ''a'' init_state = Inr s1
     \<and> ensureModelRunning (\<lambda>h c. True) ''a'' s1 = (Some ''11434'', s2)
     \<and> scaleModelsBasedOnDemand (\<lambda>h c. True) (\<lambda>t. if t = ''0'' then 0 else 20000)
           (ProbeOutput ''0, 20000'') s2 = Inl Blocked"
  by (simp add: TrackRequest_def ensureModelRunning_def startOllamaContainer_def
        scaleModelsBasedOnDemand_def getSystemMetrics_def TrimSpace_def isSpace_def
        calculateDesiredWorkers_def maxByVRAM_def int_of_float_def
        scaleUpModel_def scaleUp_loop.simps findAvailablePort_def eval_defs)

section \<open>Scale-down and the last worker\<close>

text \<open>
  Claim C1. A model of the registry keeps its entry, its port and its worker count
  through \<open>scaleDownModel\<close>, whatever model is scaled down and by whatever count (so also
  when the desired count was 0): the registry has one port for a model, the loop runs
  only while there is more than one, and no container is stopped. The same holds
  through a whole scaling cycle that returns.
\<close>

theorem scaleDownModel_keeps_last_worker:
  assumes "registry_ok s" and "m \<in> set (getActiveModels s)"
  shows "m \<in> set (getActiveModels (scaleDownModel rt model count s))
       \<and> getModelPorts (scaleDownModel rt model count s) m = getModelPorts s m
       \<and> getModelPorts (scaleDownModel rt model count s) m \<noteq> []
       \<and> get0 (currentWorkers (scaleDownModel rt model count s)) m = get0 (currentWorkers s) m
       \<and> calls (scaleDownModel rt model count s) = calls s
       \<and> (\<forall>parseFloat pr s'. scaleModelsBasedOnDemand rt parseFloat pr s = Inr s' \<longrightarrow>
             m \<in> set (getActiveModels s')
             \<and> getModelPorts s' m = getModelPorts s m
             \<and> get0 (currentWorkers s') m = get0 (currentWorkers s) m
             \<and> calls s' = calls s)"
proof -
  have same: "scaleDownModel rt model count s = s"
    using assms(1) by (rule scaleDownModel_noop)
  from assms(2) obtain port where "(m, port) \<in> set (activeModels s)"
    by (auto simp: getActiveModels_def)
  then have "port \<in> set (getModelPorts s m)"
    by (force simp: getModelPorts_def)
  then have nonempty: "getModelPorts s m \<noteq> []"
    by auto
  have cycle: "m \<in> set (getActiveModels s')
             \<and> getModelPorts s' m = getModelPorts s m
             \<and> get0 (currentWorkers s') m = get0 (currentWorkers s) m
             \<and> calls s' = calls s"
    if "scaleModelsBasedOnDemand rt parseFloat pr s = Inr s'" for parseFloat pr s'
    using scaleModelsBasedOnDemand_returns [OF assms(1) that] assms(2)
    by (simp add: getActiveModels_def getModelPorts_def)
  show ?thesis
    using same assms(2) nonempty cycle by simp
qed

theorem scaleDownModel_keeps_last_worker_witness:
  "registry_ok (init_state\<lparr>currentWorkers := [''llama'' \<mapsto> 3], activeModels := [(''llama'', ''11434'')]\<rparr>)
   \<and> ''llama'' \<in> set (getActiveModels (init_state\<lparr>currentWorkers := [''llama'' \<mapsto> 3], activeModels := [(''llama'', ''11434'')]\<rparr>))
   \<and> getModelPorts (scaleDownModel (\<lambda>h c. True) ''llama'' 3
        (init_state\<lparr>currentWorkers := [''llama'' \<mapsto> 3], activeModels := [(''llama'', ''11434'')]\<rparr>)) ''llama''
      = [''11434'']
   \<and> get0 (currentWorkers (scaleDownModel (\<lambda>h c. True) ''llama'' 3
        (init_state\<lparr>currentWorkers := [''llama'' \<mapsto> 3], activeModels := [(''llama'', ''11434'')]\<rparr>))) ''llama''
      = 3
   \<and> calculateDesiredWorkers ''llama'' 0 zeroMetrics = 0
   \<and> (\<exists>s'. scaleModelsBasedOnDemand (\<lambda>h c. True) (\<lambda>t. 0) ProbeError
          (init_state\<lparr>currentWorkers := [''llama'' \<mapsto> 3], activeModels := [(''llama'', ''11434'')]\<rparr>)
          = Inr s'
        \<and> getModelPorts s' ''llama'' = [''11434'']
        \<and> get0 (currentWorkers s') ''llama'' = 3)"
proof -
  let ?s = "init_state\<lparr>currentWorkers := [''llama'' \<mapsto> 3], activeModels := [(''llama'', ''11434'')]\<rparr>"
  have h: "registry_ok ?s" "''llama'' \<in> set (getActiveModels ?s)"
    by (simp_all add: registry_ok_def eval_defs)
  note t = scaleDownModel_keeps_last_worker [OF h, of "\<lambda>h c. True" "''llama''" 3]
  have p: "getModelPorts ?s ''llama'' = [''11434'']" and w: "get0 (currentWorkers ?s) ''llama'' = 3"
    by (simp_all add: eval_defs)
  have d: "calculateDesiredWorkers ''llama'' 0 zeroMetrics = 0"
    by (simp add: calculateDesiredWorkers_def maxByVRAM_def int_of_float_def zeroMetrics_def)
  have "\<exists>s'. scaleModelsBasedOnDemand (\<lambda>h c. True) (\<lambda>t. 0) ProbeError ?s = Inr s'"
    by (simp add: scaleModelsBasedOnDemand_def getSystemMetrics_def d
          scaleDownModel_def scaleDown_loop.simps eval_defs)
  then obtain s' where r: "scaleModelsBasedOnDemand (\<lambda>h c. True) (\<lambda>t. 0) ProbeError ?s = Inr s'"
    by (rule exE)
  from t r have "getModelPorts s' ''llama'' = getModelPorts ?s ''llama''
      \<and> get0 (currentWorkers s') ''llama'' = get0 (currentWorkers ?s) ''llama''"
    by blast
  then have c: "getModelPorts s' ''llama'' = [''11434'']" "get0 (currentWorkers s') ''llama'' = 3"
    by (simp_all only: p w)
  from t have k: "getModelPorts (scaleDownModel (\<lambda>h c. True) ''llama'' 3 ?s) ''llama'' = [''11434'']"
      "get0 (currentWorkers (scaleDownModel (\<lambda>h c. True) ''llama'' 3 ?s)) ''llama'' = 3"
    by (simp_all only: p w)
  show ?thesis
    by (intro conjI exI [of _ s']) (rule h k d r c)+
qed

section \<open>One addressable worker for a model\<close>

text \<open>
  Claim C4. In every reachable state the registry gives at most one port for a model:
  \<open>getModelPorts\<close> returns a list of length at most 1. A start stores the port of the
  model over the one that was there, and \<open>scaleUpModel\<close> counts the worker in
  \<open>currentWorkers\<close> without a further entry.
\<close>

theorem reachable_one_port_per_model:
  assumes "reachable s"
  shows "length (getModelPorts s model) \<le> 1"
  using assms by (intro getModelPorts_le1 reachable_registry_ok)

lemma scaleUpModel_twice:
  "scaleUpModel (\<lambda>h c. True) ''m'' 2 init_state =
     Inr (init_state\<lparr>currentWorkers := [''m'' \<mapsto> 2], nextPort := 11436,
            activeModels := [(''m'', ''11435'')],
            calls := [DockerRun ''m'' ''11434'', DockerRun ''m'' ''11435'']\<rparr>)"
  by (simp add: scaleUpModel_def scaleUp_loop.simps findAvailablePort_def
        startOllamaContainer_def eval_defs)

theorem reachable_one_port_per_model_witness:
  "\<exists>s. scaleUpModel (\<lambda>h c. True) ''m'' 2 init_state = Inr s
      \<and> reachable s
      \<and> get0 (currentWorkers s) ''m'' = 2
      \<and> getModelPorts s ''m'' = [''11435'']
      \<and> length (getModelPorts s ''m'') \<le> 1"
proof -
  let ?s = "init_state\<lparr>currentWorkers := [''m'' \<mapsto> 2], nextPort := 11436,
            activeModels := [(''m'', ''11435'')],
            calls := [DockerRun ''m'' ''11434'', DockerRun ''m'' ''11435'']\<rparr>"
  have r: "reachable ?s"
    using reach_init scaleUpModel_twice by (rule reach_scaleUpModel)
  have "length (getModelPorts ?s ''m'') \<le> 1"
    using r by (rule reachable_one_port_per_model)
  moreover have "get0 (currentWorkers ?s) ''m'' = 2" "getModelPorts ?s ''m'' = [''11435'']"
    by (simp_all add: eval_defs)
  ultimately show ?thesis
    using scaleUpModel_twice r by blast
qed

section \<open>A failed stop\<close>


section \<open>The probe's output\<close>

text \<open>
  Claim C9. \<open>getSystemMetrics\<close> indexes the second field of the output without a check:
  when \<open>nvidia-smi\<close> succeeds with an output that has no comma (the empty output, or
  one value), the index is out of range and the call panics.
\<close>

theorem getSystemMetrics_panics_without_comma:
  "getSystemMetrics parseFloat (ProbeOutput []) = Inl IndexOutOfRange
   \<and> getSystemMetrics parseFloat (ProbeOutput ''N/A'') = Inl IndexOutOfRange
   \<and> getSystemMetrics parseFloat (ProbeOutput ''45'') = Inl IndexOutOfRange"
  by (simp add: getSystemMetrics_def TrimSpace_def isSpace_def)

section \<open>Port allocation\<close>




section \<open>A failed start during scale-up\<close>




section \<open>Draining the demand counters\<close>




section \<open>Two requests for a model that is not registered\<close>

text \<open>
  Claim C3 says that requests for a model that is not registered issue one start,
  however they interleave. \<open>ensureModelRunning\<close> holds no lock between its \<open>Load\<close> and
  its \<open>Store\<close>: when two requests take their steps in turn, both find no entry and
  both run \<open>docker run\<close>. Two start commands are issued, whether the runtime accepts
  both or only the first.
\<close>

theorem overlapping_routes_start_twice_counterexample:
  "Load ''x'' (activeModels init_state) = None
   \<and> (\<exists>s. interleave (\<lambda>h c. True) ''x'' [False, True, False, True, False, True, False, True]
             (AtLoad, AtLoad, init_state)
           = (Returned (Some ''11434''), Returned (Some ''11434''), s)
        \<and> calls s = [DockerRun ''x'' ''11434'', DockerRun ''x'' ''11434''])
   \<and> (\<exists>s. interleave succeeds_first ''x'' [False, True, False, True, False, True, False, True]
             (AtLoad, AtLoad, init_state)
           = (Returned (Some ''11434''), Returned None, s)
        \<and> calls s = [DockerRun ''x'' ''11434'', DockerRun ''x'' ''11434''])"
  by (simp add: succeeds_first_def eval_defs)

text \<open>
  Claim C3, as the code has it. When the second request for a model that is not
  registered starts after the first has returned, and the start of the first succeeds,
  one start command is issued and one port is registered for the model: the second
  request finds the entry and returns its port.
\<close>

theorem sequential_routes_start_once:
  assumes "Load model (activeModels s) = None"
    and "rt (calls s) (DockerRun model (Itoa (wrap64 (basePort + countActiveModels s))))"
  shows "\<exists>port s1. ensureModelRunning rt model s = (Some port, s1)
          \<and> ensureModelRunning rt model s1 = (Some port, s1)
          \<and> calls s1 = calls s @ [DockerRun model port]
          \<and> getModelPorts s1 model = [port]
          \<and> interleave rt model [False, False, False, False, True, True, True, True]
               (AtLoad, AtLoad, s)
             = (Returned (Some port), Returned (Some port), s1)"
proof -
  let ?port = "Itoa (wrap64 (basePort + countActiveModels s))"
  let ?s1 = "s\<lparr>activeModels := Store model ?port (activeModels s),
               calls := calls s @ [DockerRun model ?port]\<rparr>"
  have first: "ensureModelRunning rt model s = (Some ?port, ?s1)"
    using assms by (simp add: ensureModelRunning_def startOllamaContainer_def Let_def)
  have "Load model (activeModels ?s1) = Some ?port"
    by (simp add: Load_def Store_def update_conv')
  then have second: "ensureModelRunning rt model ?s1 = (Some ?port, ?s1)"
    by (simp add: ensureModelRunning_def)
  have "model \<notin> fst ` set (activeModels s)"
    using assms(1) by (simp add: Load_def map_of_eq_None_iff)
  then have ports: "getModelPorts ?s1 model = [?port]"
    by (simp add: getModelPorts_def Store_def filter_key_update_new)
  have "interleave rt model ([False, False, False, False] @ [True, True, True, True])
          (AtLoad, AtLoad, s)
        = (Returned (Some ?port), Returned (Some ?port), ?s1)"
    unfolding interleave_append route_first_returns first fst_conv snd_conv
      route_second_returns second
    by (rule refl)
  then have "interleave rt model [False, False, False, False, True, True, True, True]
          (AtLoad, AtLoad, s)
        = (Returned (Some ?port), Returned (Some ?port), ?s1)"
    by simp
  with first second ports show ?thesis
    by (intro exI [of _ ?port] exI [of _ ?s1]) simp
qed

theorem sequential_routes_start_once_witness:
  "Load ''x'' (activeModels init_state) = None
   \<and> (\<lambda>h c. True) (calls init_state)
        (DockerRun ''x'' (Itoa (wrap64 (basePort + countActiveModels init_state))))
   \<and> (\<exists>s1. ensureModelRunning (\<lambda>h c. True) ''x'' init_state = (Some ''11434'', s1)
         \<and> ensureModelRunning (\<lambda>h c. True) ''x'' s1 = (Some ''11434'', s1)
         \<and> calls s1 = [DockerRun ''x'' ''11434'']
         \<and> getModelPorts s1 ''x'' = [''11434''])"
proof -
  have h: "Load ''x'' (activeModels init_state) = None"
    "(\<lambda>h c. True) (calls init_state)
        (DockerRun ''x'' (Itoa (wrap64 (basePort + countActiveModels init_state))))"
    by (simp_all add: eval_defs)
  have e: "ensureModelRunning (\<lambda>h c. True) ''x'' init_state
        = (Some ''11434'', init_state\<lparr>activeModels := [(''x'', ''11434'')],
                              calls := [DockerRun ''x'' ''11434'']\<rparr>)"
    by (simp add: ensureModelRunning_def startOllamaContainer_def eval_defs)
  from sequential_routes_start_once [of "''x''" init_state "\<lambda>h c. True", OF h]
  obtain port s1 where
    o1: "ensureModelRunning (\<lambda>h c. True) ''x'' init_state = (Some port, s1)" and
    o2: "ensureModelRunning (\<lambda>h c. True) ''x'' s1 = (Some port, s1)" and
    o3: "calls s1 = calls init_state @ [DockerRun ''x'' port]" and
    o4: "getModelPorts s1 ''x'' = [port]"
    by (elim exE conjE)
  have "fst (ensureModelRunning (\<lambda>h c. True) ''x'' init_state) = Some ''11434''"
    unfolding e by (rule fst_conv)
  then have p: "port = ''11434''"
    unfolding o1 by simp
  have c: "calls init_state = []" by (simp add: init_state_def)
  have a1: "ensureModelRunning (\<lambda>h c. True) ''x'' init_state = (Some ''11434'', s1)"
    using o1 by (simp only: p)
  have a2: "ensureModelRunning (\<lambda>h c. True) ''x'' s1 = (Some ''11434'', s1)"
    using o2 by (simp only: p)
  have a3: "calls s1 = [DockerRun ''x'' ''11434'']"
    using o3 by (simp only: p c append_Nil)
  have a4: "getModelPorts s1 ''x'' = [''11434'']"
    using o4 by (simp only: p)
  show ?thesis
    by (intro conjI exI [of _ s1]) (rule h a1 a2 a3 a4)+
qed

end
